theory Spec2Isabelle
  imports Main
begin

section \<open>The credential registry of BabooSSH (\<open>baboossh/creds.py\<close>)\<close>

text \<open>
  The class \<open>Creds\<close> keeps one persisted row per logical identity of an authentication
  secret. The database handle \<open>Db.get()\<close>, the extension registry \<open>Extensions\<close>, the
  classes \<open>Endpoint\<close> and \<open>Connection\<close> and \<open>hashlib\<close> are collaborators of the class:
  tables are lists of rows in storage order, a query is a \<open>filter\<close> or \<open>find\<close> on the list,
  and what a collaborator computes is either a parameter of the model or a definition
  marked as modelled from the specification.
\<close>

subsection \<open>Data\<close>

datatype error =
    UnknownMethodError
  | MalformedContentError
  | NameError string
  | TypeError
  | CollaboratorError string

text \<open>The object an authentication extension builds; the class reads only its attribute \<open>identifier\<close>.\<close>

record AuthObj =
  obj_identifier :: string

record Endpoint =
  endpoint_id :: "int option"

text \<open>A row of the table \<open>creds\<close>: \<open>id, type, content, identifier, scope, found\<close>.\<close>

record creds_row =
  row_id :: int
  row_type :: string
  row_content :: string
  row_identifier :: string
  row_scope :: int
  row_found :: "int option"

text \<open>
  Modelled from the spec: the class \<open>Connection\<close> is not part of this file. A
  connection holds a reference to a credential by id; \<open>conn_name\<close> is the identifier
  under which its deletion is reported.
\<close>

record Connection =
  conn_name :: string
  conn_creds :: int

text \<open>
  The workspace database. \<open>side_state\<close> holds the objects for which an extension keeps
  state of its own (what \<open>obj.delete()\<close> cleans up); \<open>commits\<close> counts the calls of
  \<open>Db.get().commit()\<close>.
\<close>

record Db =
  creds :: "creds_row list"
  endpoints :: "Endpoint list"
  connections :: "Connection list"
  side_state :: "AuthObj list"
  commits :: nat

text \<open>The attributes of a \<open>Creds\<close> instance.\<close>

record Creds =
  credsType :: string
  credsContent :: string
  obj :: AuthObj
  creds_id :: "int option"
  scope :: bool
  found :: "Endpoint option"

text \<open>
  \<open>Extensions.getAuthMethod(credsType)(credsContent)\<close>: the registry of extensions is
  a parameter. It may raise for an unknown method or for content it cannot parse.
\<close>

type_synonym auth_methods = "string \<Rightarrow> string \<Rightarrow> error + AuthObj"

text \<open>\<open>hashlib.sha256(s.encode()).hexdigest()\<close> is a parameter as well.\<close>

type_synonym digest = "string \<Rightarrow> string"

subsection \<open>Collaborators\<close>

definition commit :: "Db \<Rightarrow> Db" where
  "commit db = db\<lparr>commits := Suc (commits db)\<rparr>"

text \<open>
  Modelled from the spec: the persistence engine is external; \<open>insert\<close> assigns a new
  integer primary key. The key is one more than the largest key of the table.
\<close>

definition next_rowid :: "creds_row list \<Rightarrow> int" where
  "next_rowid rows = foldr max (map row_id rows) 0 + 1"

text \<open>
  Modelled from the spec: the Endpoint collaborator, \<open>findById(id) -> Endpoint | none\<close>.
\<close>

definition Endpoint_find_one :: "int \<Rightarrow> Db \<Rightarrow> Endpoint option" where
  "Endpoint_find_one eid db = find (\<lambda>e. endpoint_id e = Some eid) (endpoints db)"

subsection \<open>\<open>Creds.__init__\<close>, \<open>Creds.get_id\<close> and \<open>Creds.save\<close>\<close>

text \<open>The condition \<open>WHERE type=? AND identifier=?\<close>.\<close>

definition by_identity :: "string \<Rightarrow> string \<Rightarrow> creds_row \<Rightarrow> bool" where
  "by_identity t i r = (row_type r = t \<and> row_identifier r = i)"

definition Creds_init :: "auth_methods \<Rightarrow> string \<Rightarrow> string \<Rightarrow> Db \<Rightarrow> error + Creds" where
  "Creds_init getAuthMethod t content db =
     (case getAuthMethod t content of
        Inl e \<Rightarrow> Inl e
      | Inr ob \<Rightarrow>
          (case find (by_identity t (obj_identifier ob)) (creds db) of
             None \<Rightarrow>
               Inr \<lparr>credsType = t, credsContent = content, obj = ob,
                    creds_id = None, scope = True, found = None\<rparr>
           | Some savedCreds \<Rightarrow>
               Inr \<lparr>credsType = t, credsContent = content, obj = ob,
                    creds_id = Some (row_id savedCreds),
                    scope = (row_scope savedCreds \<noteq> 0),
                    found = (case row_found savedCreds of
                               None \<Rightarrow> None
                             | Some eid \<Rightarrow> Endpoint_find_one eid db)\<rparr>))"

definition get_id :: "auth_methods \<Rightarrow> digest \<Rightarrow> string \<Rightarrow> string \<Rightarrow> error + string" where
  "get_id getAuthMethod sha256 t content =
     (case getAuthMethod t content of
        Inl e \<Rightarrow> Inl e
      | Inr ob \<Rightarrow> Inr (sha256 (t @ obj_identifier ob)))"

text \<open>The row that \<open>save\<close> writes for an instance, under a given id.\<close>

definition row_of :: "Creds \<Rightarrow> int \<Rightarrow> creds_row" where
  "row_of self i =
     \<lparr>row_id = i, row_type = credsType self, row_content = credsContent self,
      row_identifier = obj_identifier (obj self),
      row_scope = (if scope self then 1 else 0),
      row_found = (case found self of None \<Rightarrow> None | Some e \<Rightarrow> endpoint_id e)\<rparr>"

text \<open>
  \<open>save\<close> returns the instance as it leaves it (the insert branch assigns \<open>self.id\<close>) and
  the database. \<open>c.fetchone()[0]\<close> raises \<open>TypeError\<close> when the query has no row; the
  commit is then not reached.
\<close>

definition Creds_save :: "Creds \<Rightarrow> Db \<Rightarrow> (error + Creds) \<times> Db" where
  "Creds_save self db =
     (case creds_id self of
        Some i \<Rightarrow>
          (Inr self,
           commit (db\<lparr>creds := map (\<lambda>r. if row_id r = i then row_of self i else r) (creds db)\<rparr>))
      | None \<Rightarrow>
          (let db' = db\<lparr>creds := creds db @ [row_of self (next_rowid (creds db))]\<rparr>
           in case find (by_identity (credsType self) (obj_identifier (obj self))) (creds db') of
                None \<Rightarrow> (Inl TypeError, db')
              | Some r \<Rightarrow> (Inr (self\<lparr>creds_id := Some (row_id r)\<rparr>), commit db')))"

subsection \<open>\<open>Creds.delete\<close>\<close>

text \<open>A deletion report maps the name of an entity kind to the identifiers removed.\<close>

type_synonym report = "string \<rightharpoonup> string list"

text \<open>
  Modelled from the spec: \<open>unstore_targets_merge\<close> (of \<open>baboossh.utils\<close>, not part of
  this file) merges a report into a running report; the merge is set union per kind,
  not overwrite. The source updates its first argument in place; the model returns it.
\<close>

definition unstore_targets_merge :: "report \<Rightarrow> report \<Rightarrow> report" where
  "unstore_targets_merge original new_data =
     (\<lambda>kind. case new_data kind of
               None \<Rightarrow> original kind
             | Some ids \<Rightarrow>
                 (case original kind of
                    None \<Rightarrow> Some ids
                  | Some old \<Rightarrow> Some (List.union old ids)))"

text \<open>
  Modelled from the spec: \<open>Connection.find_all(creds=self)\<close> enumerates the connections
  whose credential reference equals this credential.
\<close>

definition Connection_find_all :: "Creds \<Rightarrow> Db \<Rightarrow> Connection list" where
  "Connection_find_all self db =
     filter (\<lambda>x. creds_id self = Some (conn_creds x)) (connections db)"

text \<open>
  \<open>connection.delete()\<close> is a parameter: it returns a report or raises, and leaves a
  database behind in both cases.
\<close>

type_synonym conn_delete = "Connection \<Rightarrow> Db \<Rightarrow> (error + report) \<times> Db"

text \<open>
  Modelled from the spec: \<open>obj.delete()\<close> is the method-specific cleanup of the side
  state of the extension's object.
\<close>

definition obj_delete :: "AuthObj \<Rightarrow> Db \<Rightarrow> Db" where
  "obj_delete ob db = db\<lparr>side_state := filter (\<lambda>x. x \<noteq> ob) (side_state db)\<rparr>"

text \<open>
  The loop \<open>for connection in Connection.find_all(creds=self)\<close>: an exception of
  \<open>connection.delete()\<close> leaves the loop and the method.
\<close>

fun cascade :: "conn_delete \<Rightarrow> Connection list \<Rightarrow> report \<Rightarrow> Db \<Rightarrow> (error + report) \<times> Db" where
  "cascade cd [] del_data db = (Inr del_data, db)"
| "cascade cd (x # xs) del_data db =
     (case cd x db of
        (Inl e, db') \<Rightarrow> (Inl e, db')
      | (Inr r, db') \<Rightarrow> cascade cd xs (unstore_targets_merge del_data r) db')"

text \<open>
  The operations that \<open>delete\<close> performs on the store, in the order of the source: the
  query of \<open>Connection.find_all\<close>, each call of \<open>connection.delete()\<close>, \<open>obj.delete()\<close>, the
  \<open>DELETE\<close> of the row, and the commit.
\<close>

datatype store_op =
    FindConnections
  | ConnectionDelete Connection
  | ObjDelete AuthObj
  | DeleteRow int
  | Commit

text \<open>The calls of \<open>connection.delete()\<close> the loop makes, up to and including one that raises.\<close>

fun cascade_ops :: "conn_delete \<Rightarrow> Connection list \<Rightarrow> Db \<Rightarrow> store_op list" where
  "cascade_ops cd [] db = []"
| "cascade_ops cd (x # xs) db =
     (case cd x db of
        (Inl e, db') \<Rightarrow> [ConnectionDelete x]
      | (Inr r, db') \<Rightarrow> ConnectionDelete x # cascade_ops cd xs db')"

text \<open>
  \<open>delete\<close> assigns no attribute of \<open>self\<close>, so the model returns no new instance. The
  bare \<open>return\<close> of the guard yields Python's \<open>None\<close>: the result is a \<open>report option\<close>.
  Beside the result and the database the model returns the store operations performed.
\<close>

definition Creds_delete_traced ::
  "conn_delete \<Rightarrow> auth_methods \<Rightarrow> digest \<Rightarrow> Creds \<Rightarrow> Db
     \<Rightarrow> ((error + report option) \<times> Db) \<times> store_op list" where
  "Creds_delete_traced cd getAuthMethod sha256 self db =
     (case creds_id self of
        None \<Rightarrow> ((Inr None, db), [])
      | Some i \<Rightarrow>
          (let conns = Connection_find_all self db;
               looped = FindConnections # cascade_ops cd conns db
           in case cascade cd conns Map.empty db of
             (Inl e, db1) \<Rightarrow> ((Inl e, db1), looped)
           | (Inr del_data, db1) \<Rightarrow>
               (let db2 = obj_delete (obj self) db1;
                    db3 = db2\<lparr>creds := filter (\<lambda>r. row_id r \<noteq> i) (creds db2)\<rparr>;
                    db4 = commit db3;
                    ops = looped @ [ObjDelete (obj self), DeleteRow i, Commit]
                in case get_id getAuthMethod sha256 (credsType self) (credsContent self) of
                     Inl e \<Rightarrow> ((Inl e, db4), ops)
                   | Inr fp \<Rightarrow>
                       ((Inr (Some (unstore_targets_merge del_data [''Creds'' \<mapsto> [fp]])), db4),
                        ops))))"

text \<open>What \<open>delete\<close> returns and the database it leaves.\<close>

definition Creds_delete ::
  "conn_delete \<Rightarrow> auth_methods \<Rightarrow> digest \<Rightarrow> Creds \<Rightarrow> Db \<Rightarrow> (error + report option) \<times> Db" where
  "Creds_delete cd getAuthMethod sha256 self db =
     fst (Creds_delete_traced cd getAuthMethod sha256 self db)"

subsection \<open>Instances shared through the metaclass\<close>

text \<open>
  A workspace is the database together with the cached instances of the class; a
  reference to an instance is the key under which it is cached.
\<close>

record Workspace =
  ws_db :: Db
  store :: "string \<rightharpoonup> Creds"

text \<open>
  Modelled from the spec: the metaclass \<open>Unique\<close> (of \<open>baboossh.utils\<close>, not part of this
  file) is the class-level cache that makes constructions of the same identity behave
  as the same object; its key is the content hash \<open>get_id\<close>, the global deduplication
  key. \<open>__init__\<close> runs only when the key is not cached.
\<close>

definition Unique_call ::
  "auth_methods \<Rightarrow> digest \<Rightarrow> string \<Rightarrow> string \<Rightarrow> Workspace \<Rightarrow> (error + string) \<times> Workspace" where
  "Unique_call getAuthMethod sha256 t content w =
     (case get_id getAuthMethod sha256 t content of
        Inl e \<Rightarrow> (Inl e, w)
      | Inr k \<Rightarrow>
          (case store w k of
             Some c \<Rightarrow> (Inr k, w)
           | None \<Rightarrow>
               (case Creds_init getAuthMethod t content (ws_db w) of
                  Inl e \<Rightarrow> (Inl e, w)
                | Inr c \<Rightarrow> (Inr k, w\<lparr>store := (store w)(k \<mapsto> c)\<rparr>))))"

subsection \<open>\<open>Creds.find_all\<close>\<close>

text \<open>
  The loop \<open>for row in req: ret.append(Creds(row[0], row[1]))\<close>. \<open>Creds(...)\<close> is the call
  through the metaclass, so the list holds references to the shared instances.
\<close>

fun build_all ::
  "auth_methods \<Rightarrow> digest \<Rightarrow> creds_row list \<Rightarrow> Workspace \<Rightarrow> (error + string list) \<times> Workspace" where
  "build_all getAuthMethod sha256 [] w = (Inr [], w)"
| "build_all getAuthMethod sha256 (row # rows) w =
     (case Unique_call getAuthMethod sha256 (row_type row) (row_content row) w of
        (Inl e, w') \<Rightarrow> (Inl e, w')
      | (Inr k, w') \<Rightarrow>
          (case build_all getAuthMethod sha256 rows w' of
             (Inl e, w'') \<Rightarrow> (Inl e, w'')
           | (Inr ks, w'') \<Rightarrow> (Inr (k # ks), w'')))"

text \<open>
  In both branches with \<open>found\<close> given, the parameter tuple reads the name \<open>endpoint\<close>,
  which is bound nowhere in the module: evaluating it raises \<open>NameError\<close> before the
  query runs. A \<open>bool\<close> parameter is bound as the integer 1 or 0.
\<close>

definition Creds_find_all ::
  "auth_methods \<Rightarrow> digest \<Rightarrow> bool option \<Rightarrow> Endpoint option \<Rightarrow> Workspace
     \<Rightarrow> (error + string list) \<times> Workspace" where
  "Creds_find_all getAuthMethod sha256 scope_arg found_arg w =
     (case found_arg of
        None \<Rightarrow>
          (case scope_arg of
             None \<Rightarrow> build_all getAuthMethod sha256 (creds (ws_db w)) w
           | Some b \<Rightarrow>
               build_all getAuthMethod sha256
                 (filter (\<lambda>r. row_scope r = (if b then 1 else 0)) (creds (ws_db w))) w)
      | Some e \<Rightarrow> (Inl (NameError ''endpoint''), w))"

subsection \<open>Sequences of operations\<close>

text \<open>\<open>save()\<close> called through a reference; the instance is updated where it is cached.\<close>

definition save_ref :: "string \<Rightarrow> Workspace \<Rightarrow> Workspace" where
  "save_ref k w =
     (case store w k of
        None \<Rightarrow> w
      | Some c \<Rightarrow>
          (case Creds_save c (ws_db w) of
             (Inl e, db') \<Rightarrow> w\<lparr>ws_db := db'\<rparr>
           | (Inr c', db') \<Rightarrow> w\<lparr>ws_db := db', store := (store w)(k \<mapsto> c')\<rparr>))"

text \<open>
  What a caller does in a sequence of constructor and save operations: construct from a
  type and a content, save an instance it holds, or end the process (the database stays,
  the cached instances are gone).
\<close>

datatype action = Construct string string | Save string | Restart

fun step :: "auth_methods \<Rightarrow> digest \<Rightarrow> action \<Rightarrow> Workspace \<Rightarrow> Workspace" where
  "step getAuthMethod sha256 (Construct t content) w =
     snd (Unique_call getAuthMethod sha256 t content w)"
| "step getAuthMethod sha256 (Save k) w = save_ref k w"
| "step getAuthMethod sha256 Restart w = w\<lparr>store := Map.empty\<rparr>"

definition run :: "auth_methods \<Rightarrow> digest \<Rightarrow> action list \<Rightarrow> Workspace \<Rightarrow> Workspace" where
  "run getAuthMethod sha256 acts w = fold (step getAuthMethod sha256) acts w"

definition empty_db :: Db where
  "empty_db = \<lparr>creds = [], endpoints = [], connections = [], side_state = [], commits = 0\<rparr>"

definition new_workspace :: Workspace where
  "new_workspace = \<lparr>ws_db = empty_db, store = Map.empty\<rparr>"

subsection \<open>Contracts and sample collaborators\<close>

text \<open>Whether a report lists an identifier under a kind.\<close>

definition reported :: "report \<Rightarrow> string \<Rightarrow> string \<Rightarrow> bool" where
  "reported rep kind ident = (case rep kind of None \<Rightarrow> False | Some ids \<Rightarrow> ident \<in> set ids)"

text \<open>The reports that the successive calls of \<open>connection.delete()\<close> return in the loop.\<close>

fun cascade_reports :: "conn_delete \<Rightarrow> Connection list \<Rightarrow> Db \<Rightarrow> report list" where
  "cascade_reports cd [] db = []"
| "cascade_reports cd (x # xs) db =
     (case cd x db of
        (Inl e, db') \<Rightarrow> []
      | (Inr r, db') \<Rightarrow> r # cascade_reports cd xs db')"

text \<open>
  Modelled from the spec: each Connection exposes \<open>delete()\<close>, its own cascading delete.
  The contract asked of it here: when it returns, the connection is gone and no
  connection has appeared.
\<close>

definition removes_connection :: "conn_delete \<Rightarrow> bool" where
  "removes_connection cd =
     (\<forall>x db r db'. cd x db = (Inr r, db') \<longrightarrow>
        set (connections db') \<subseteq> set (connections db) - {x})"

text \<open>
  Modelled from the spec: a \<open>Connection.delete\<close> that removes the row of the connection,
  commits, and reports the connection under the kind \<open>Connections\<close>.
\<close>

definition Connection_delete :: conn_delete where
  "Connection_delete x db =
     (Inr [''Connections'' \<mapsto> [conn_name x]],
      commit (db\<lparr>connections := filter (\<lambda>y. y \<noteq> x) (connections db)\<rparr>))"

text \<open>
  A registry with the single method \<open>password\<close>, whose identity is the user name before
  the colon, and a stand-in for the digest; both serve to run the model on examples.
\<close>

definition sample_methods :: auth_methods where
  "sample_methods t content =
     (if t = ''password''
      then Inr \<lparr>obj_identifier = takeWhile (\<lambda>ch. ch \<noteq> CHR '':'') content\<rparr>
      else Inl UnknownMethodError)"

definition sample_digest :: digest where
  "sample_digest s = ''sha256:'' @ s"

text \<open>The instance is the one the registry builds from its type and content.\<close>

definition consistent :: "auth_methods \<Rightarrow> Creds \<Rightarrow> bool" where
  "consistent getAuthMethod self =
     (getAuthMethod (credsType self) (credsContent self) = Inr (obj self))"

text \<open>
  A workspace for the examples: the credential 5 was discovered on endpoint 2 and is used
  by the connections \<open>c1\<close> and \<open>c2\<close>.
\<close>

definition sample_db :: Db where
  "sample_db =
     \<lparr>creds =
        [\<lparr>row_id = 5, row_type = ''password'', row_content = ''user:pass'',
          row_identifier = ''user'', row_scope = 1, row_found = Some 2\<rparr>,
         \<lparr>row_id = 6, row_type = ''password'', row_content = ''root:toor'',
          row_identifier = ''root'', row_scope = 0, row_found = None\<rparr>],
      endpoints = [\<lparr>endpoint_id = Some 2\<rparr>],
      connections =
        [\<lparr>conn_name = ''c1'', conn_creds = 5\<rparr>,
         \<lparr>conn_name = ''c0'', conn_creds = 6\<rparr>,
         \<lparr>conn_name = ''c2'', conn_creds = 5\<rparr>],
      side_state = [\<lparr>obj_identifier = ''user''\<rparr>],
      commits = 0\<rparr>"

text \<open>The instance \<open>Creds("password", "user:pass")\<close> on the empty database.\<close>

definition unsaved_creds :: Creds where
  "unsaved_creds =
     \<lparr>credsType = ''password'', credsContent = ''user:pass'',
      obj = \<lparr>obj_identifier = ''user''\<rparr>,
      creds_id = None, scope = True, found = None\<rparr>"

text \<open>The same on \<open>sample_db\<close>, where it is hydrated from row 5.\<close>

definition saved_creds :: Creds where
  "saved_creds =
     \<lparr>credsType = ''password'', credsContent = ''user:pass'',
      obj = \<lparr>obj_identifier = ''user''\<rparr>,
      creds_id = Some 5, scope = True, found = Some \<lparr>endpoint_id = Some 2\<rparr>\<rparr>"

text \<open>A \<open>connection.delete()\<close> that raises for the connection \<open>c2\<close>.\<close>

definition failing_delete :: conn_delete where
  "failing_delete x db =
     (if conn_name x = ''c2'' then (Inl (CollaboratorError ''c2''), db)
      else Connection_delete x db)"

text \<open>
  A value for the attribute \<open>found\<close> that the store can give back: no endpoint, or an
  endpoint that \<open>Endpoint.find_one\<close> returns for its own id.
\<close>

definition known_endpoint :: "Db \<Rightarrow> Endpoint option \<Rightarrow> bool" where
  "known_endpoint db f =
     (case f of
        None \<Rightarrow> True
      | Some e \<Rightarrow>
          (case endpoint_id e of
             None \<Rightarrow> False
           | Some eid \<Rightarrow> Endpoint_find_one eid db = Some e))"

subsection \<open>The invariant of the registry\<close>

text \<open>The pair that has to be unique among the rows, for a row and for an instance.\<close>

definition row_key :: "creds_row \<Rightarrow> string \<times> string" where
  "row_key r = (row_type r, row_identifier r)"

definition creds_key :: "Creds \<Rightarrow> string \<times> string" where
  "creds_key self = (credsType self, obj_identifier (obj self))"

definition keyed_rows :: "Db \<Rightarrow> (int \<times> string \<times> string) list" where
  "keyed_rows db = map (\<lambda>r. (row_id r, row_key r)) (creds db)"

text \<open>
  What holds of a workspace along every run: ids and identities are unique among the
  rows, every cached instance is cached under its own fingerprint, an instance with an
  id has its row, and an instance without an id has no row of its identity.
\<close>

definition in_step :: "Db \<Rightarrow> Creds \<Rightarrow> bool" where
  "in_step db self =
     (case creds_id self of
        None \<Rightarrow> creds_key self \<notin> snd ` set (keyed_rows db)
      | Some i \<Rightarrow> (i, creds_key self) \<in> set (keyed_rows db))"

definition cached_ok :: "auth_methods \<Rightarrow> digest \<Rightarrow> Workspace \<Rightarrow> bool" where
  "cached_ok getAuthMethod sha256 w =
     (distinct (map fst (keyed_rows (ws_db w)))
      \<and> distinct (map snd (keyed_rows (ws_db w)))
      \<and> (\<forall>k c. store w k = Some c \<longrightarrow>
             consistent getAuthMethod c
           \<and> k = sha256 (credsType c @ obj_identifier (obj c))
           \<and> in_step (ws_db w) c))"

section \<open>Properties\<close>

subsection \<open>Basic facts\<close>

lemma creds_commit [simp]: "creds (commit db) = creds db"
  and endpoints_commit [simp]: "endpoints (commit db) = endpoints db"
  and connections_commit [simp]: "connections (commit db) = connections db"
  and side_state_commit [simp]: "side_state (commit db) = side_state db"
  and commits_commit [simp]: "commits (commit db) = Suc (commits db)"
  by (simp_all add: commit_def)

lemma find_snoc:
  "find P (xs @ [x]) =
     (case find P xs of None \<Rightarrow> (if P x then Some x else None) | Some y \<Rightarrow> Some y)"
  by (induction xs) auto

lemma next_rowid_fresh: "r \<in> set rows \<Longrightarrow> row_id r < next_rowid rows"
  unfolding next_rowid_def by (induction rows) auto

lemma by_identity_row_of [simp]:
  "by_identity (credsType c) (obj_identifier (obj c)) (row_of c i)"
  by (simp add: by_identity_def row_of_def)

lemma row_of_id [simp]: "row_id (row_of c i) = i"
  by (simp add: row_of_def)

lemma row_of_creds_id [simp]: "row_of (c\<lparr>creds_id := j\<rparr>) i = row_of c i"
  by (simp add: row_of_def)

lemma update_ids [simp]:
  "map row_id (map (\<lambda>r. if row_id r = i then row_of c i else r) rows) = map row_id rows"
  by (induction rows) auto

lemma update_idem:
  "map (\<lambda>r. if row_id r = i then row_of c i else r)
     (map (\<lambda>r. if row_id r = i then row_of c i else r) rows)
   = map (\<lambda>r. if row_id r = i then row_of c i else r) rows"
  by (induction rows) auto

lemma update_fresh:
  assumes "\<forall>x\<in>set rows. row_id x \<noteq> i"
  shows "map (\<lambda>x. if row_id x = i then N else x) rows = rows"
  using assms by (induction rows) auto

text \<open>The insert branch of \<open>save\<close> always finds the row it has just written a match for.\<close>

lemma save_insert:
  assumes "creds_id c = None"
  shows "\<exists>r. find (by_identity (credsType c) (obj_identifier (obj c)))
               (creds db @ [row_of c (next_rowid (creds db))]) = Some r
           \<and> Creds_save c db =
               (Inr (c\<lparr>creds_id := Some (row_id r)\<rparr>),
                commit (db\<lparr>creds := creds db @ [row_of c (next_rowid (creds db))]\<rparr>))"
  using assms by (auto simp: Creds_save_def find_snoc Let_def split: option.splits)

lemma save_update:
  assumes "creds_id c = Some i"
  shows "Creds_save c db =
           (Inr c,
            commit (db\<lparr>creds := map (\<lambda>r. if row_id r = i then row_of c i else r) (creds db)\<rparr>))"
  using assms by (simp add: Creds_save_def)

lemma save_saved_twice:
  assumes "creds_id c = Some i"
  shows "\<exists>db' db''. Creds_save c db = (Inr c, db') \<and> Creds_save c db' = (Inr c, db'')
           \<and> creds db'' = creds db' \<and> length (creds db') = length (creds db)"
  using assms by (simp add: save_update update_idem)

subsection \<open>The fingerprint\<close>

text \<open>
  C5. \<open>get_id\<close> is a function of the type and the content alone (it takes neither the
  database nor an instance): it is the digest of the type followed by the identity the
  extension derives, so two contents with the same identity under the same type have
  the same fingerprint, and so have two calls on the same content.
\<close>

theorem get_id_deterministic:
  assumes "gam t c1 = Inr o1" and "gam t c2 = Inr o2"
    and "obj_identifier o1 = obj_identifier o2"
  shows "get_id gam H t c1 = Inr (H (t @ obj_identifier o1))
       \<and> get_id gam H t c2 = get_id gam H t c1"
  using assms by (simp add: get_id_def)

theorem get_id_deterministic_witness:
  "sample_methods ''password'' ''user:pass'' = Inr \<lparr>obj_identifier = ''user''\<rparr>
  \<and> sample_methods ''password'' ''user:other'' = Inr \<lparr>obj_identifier = ''user''\<rparr>
  \<and> get_id sample_methods sample_digest ''password'' ''user:pass'' = Inr ''sha256:passworduser''
  \<and> get_id sample_methods sample_digest ''password'' ''user:other''
      = get_id sample_methods sample_digest ''password'' ''user:pass''"
proof -
  have a: "sample_methods ''password'' ''user:pass'' = Inr \<lparr>obj_identifier = ''user''\<rparr>"
    by (simp add: sample_methods_def)
  have b: "sample_methods ''password'' ''user:other'' = Inr \<lparr>obj_identifier = ''user''\<rparr>"
    by (simp add: sample_methods_def)
  show ?thesis
    using get_id_deterministic[of sample_methods "''password''" "''user:pass''"
        "\<lparr>obj_identifier = ''user''\<rparr>" "''user:other''" "\<lparr>obj_identifier = ''user''\<rparr>" sample_digest] a b
    by (simp add: sample_digest_def)
qed

subsection \<open>Construction reads the database\<close>

lemma find_update_first:
  assumes "find P rows = Some r" and "P N"
  shows "find P (map (\<lambda>x. if row_id x = row_id r then N else x) rows) = Some N"
  using assms by (induction rows) (auto split: if_splits)

lemma endpoint_refind:
  assumes "Endpoint_find_one eid db = Some e"
  shows "endpoint_id e = Some eid"
  using assms unfolding Endpoint_find_one_def by (auto simp: find_Some_iff)

lemma endpoint_find_creds [simp]:
  "Endpoint_find_one eid (commit (db\<lparr>creds := rows\<rparr>)) = Endpoint_find_one eid db"
  by (simp add: Endpoint_find_one_def)

lemma known_endpoint_init:
  "known_endpoint db (case fo of None \<Rightarrow> None | Some eid \<Rightarrow> Endpoint_find_one eid db)"
proof (cases fo)
  case None
  then show ?thesis by (simp add: known_endpoint_def)
next
  case (Some eid)
  show ?thesis
  proof (cases "Endpoint_find_one eid db")
    case None
    then show ?thesis using Some by (simp add: known_endpoint_def)
  next
    case e: (Some e)
    from endpoint_refind[OF e] e Some show ?thesis by (simp add: known_endpoint_def)
  qed
qed

lemma known_endpoint_refind:
  assumes "known_endpoint db f"
  shows "(case (case f of None \<Rightarrow> None | Some e \<Rightarrow> endpoint_id e) of
            None \<Rightarrow> None | Some eid \<Rightarrow> Endpoint_find_one eid db) = f"
  using assms by (auto simp: known_endpoint_def split: option.splits)

text \<open>
  Save, then construct: the instance built from the stored row is the instance that was
  saved. This holds for every instance of the type and content whose id is the one the
  lookup gives, whatever its scope, and for every endpoint the store can give back.
\<close>

lemma save_then_init:
  assumes g: "gam t k = Inr ob"
    and c: "credsType c = t" "credsContent c = k" "obj c = ob"
    and cid: "creds_id c = map_option row_id (find (by_identity t (obj_identifier ob)) (creds db))"
    and f: "known_endpoint db (found c)"
  shows "\<exists>i db'. Creds_save c db = (Inr (c\<lparr>creds_id := Some i\<rparr>), db')
           \<and> Creds_init gam t k db' = Inr (c\<lparr>creds_id := Some i\<rparr>)
           \<and> find (by_identity t (obj_identifier ob)) (creds db') = Some (row_of c i)
           \<and> i = (case find (by_identity t (obj_identifier ob)) (creds db) of
                    None \<Rightarrow> next_rowid (creds db) | Some r \<Rightarrow> row_id r)
           \<and> (\<forall>x\<in>set (creds db'). row_id x = i \<longrightarrow> x = row_of c i)
           \<and> creds db' =
               (case find (by_identity t (obj_identifier ob)) (creds db) of
                  None \<Rightarrow> creds db @ [row_of c i]
                | Some r \<Rightarrow> map (\<lambda>x. if row_id x = row_id r then row_of c i else x) (creds db))"
proof -
  let ?P = "by_identity t (obj_identifier ob)"
  have P: "\<And>i. ?P (row_of c i)"
    using c by (simp add: by_identity_def row_of_def)
  have rebuilt: "\<And>i (db'::Db). endpoints db' = endpoints db \<Longrightarrow>
      \<lparr>credsType = t, credsContent = k, obj = ob, creds_id = Some (row_id (row_of c i)),
       scope = (row_scope (row_of c i) \<noteq> 0),
       found = (case row_found (row_of c i) of None \<Rightarrow> None
                | Some eid \<Rightarrow> Endpoint_find_one eid db')\<rparr> = c\<lparr>creds_id := Some i\<rparr>"
  proof -
    fix i and db' :: Db assume e: "endpoints db' = endpoints db"
    have "\<And>eid. Endpoint_find_one eid db' = Endpoint_find_one eid db"
      using e by (simp add: Endpoint_find_one_def)
    then have "(case row_found (row_of c i) of None \<Rightarrow> None
                | Some eid \<Rightarrow> Endpoint_find_one eid db') = found c"
      using known_endpoint_refind[OF f] by (simp add: row_of_def cong: option.case_cong)
    then show "\<lparr>credsType = t, credsContent = k, obj = ob, creds_id = Some (row_id (row_of c i)),
       scope = (row_scope (row_of c i) \<noteq> 0),
       found = (case row_found (row_of c i) of None \<Rightarrow> None
                | Some eid \<Rightarrow> Endpoint_find_one eid db')\<rparr> = c\<lparr>creds_id := Some i\<rparr>"
      using c by (cases c) (simp add: row_of_def)
  qed
  show ?thesis
  proof (cases "find ?P (creds db)")
    case None
    let ?n = "next_rowid (creds db)"
    let ?db' = "commit (db\<lparr>creds := creds db @ [row_of c ?n]\<rparr>)"
    have idn: "creds_id c = None" using cid None by simp
    have fnd: "find ?P (creds db @ [row_of c ?n]) = Some (row_of c ?n)"
      using None P by (simp add: find_snoc)
    have s: "Creds_save c db = (Inr (c\<lparr>creds_id := Some ?n\<rparr>), ?db')"
      using idn fnd c by (simp add: Creds_save_def Let_def)
    have i2: "Creds_init gam t k ?db' = Inr (c\<lparr>creds_id := Some ?n\<rparr>)"
      using g fnd rebuilt[of ?db' ?n] by (simp add: Creds_init_def)
    have u: "\<forall>x\<in>set (creds ?db'). row_id x = ?n \<longrightarrow> x = row_of c ?n"
      using next_rowid_fresh[of _ "creds db"] by fastforce
    show ?thesis
      apply (rule exI[of _ ?n], rule exI[of _ ?db'])
      using s i2 u None fnd by simp
  next
    case (Some r)
    let ?i = "row_id r"
    let ?db' = "commit (db\<lparr>creds := map (\<lambda>x. if row_id x = ?i then row_of c ?i else x) (creds db)\<rparr>)"
    have idn: "creds_id c = Some ?i" using cid Some by simp
    have s: "Creds_save c db = (Inr c, ?db')"
      by (rule save_update[OF idn])
    have cc: "c\<lparr>creds_id := Some ?i\<rparr> = c" using idn by simp
    have fnd: "find ?P (creds ?db') = Some (row_of c ?i)"
      using find_update_first[OF Some P] by simp
    have i2: "Creds_init gam t k ?db' = Inr (c\<lparr>creds_id := Some ?i\<rparr>)"
      using g fnd rebuilt[of ?db' ?i] by (simp add: Creds_init_def)
    have u: "\<forall>x\<in>set (creds ?db'). row_id x = ?i \<longrightarrow> x = row_of c ?i"
      by auto
    show ?thesis
      apply (rule exI[of _ ?i], rule exI[of _ ?db'])
      using s i2 u Some fnd cc by simp
  qed
qed

text \<open>What \<open>__init__\<close> sets, read off its two branches.\<close>

lemma init_hydrates:
  assumes g: "gam t k = Inr ob"
  shows "\<exists>c. Creds_init gam t k db = Inr c
           \<and> credsType c = t \<and> credsContent c = k \<and> obj c = ob
           \<and> creds_id c = map_option row_id (find (by_identity t (obj_identifier ob)) (creds db))
           \<and> known_endpoint db (found c)
           \<and> (case find (by_identity t (obj_identifier ob)) (creds db) of
                 None \<Rightarrow> creds_id c = None \<and> scope c \<and> found c = None
               | Some r \<Rightarrow>
                   creds_id c = Some (row_id r) \<and> scope c = (row_scope r \<noteq> 0)
                 \<and> found c = (case row_found r of None \<Rightarrow> None
                               | Some eid \<Rightarrow> Endpoint_find_one eid db))"
proof (cases "find (by_identity t (obj_identifier ob)) (creds db)")
  case None
  then show ?thesis using g by (simp add: Creds_init_def known_endpoint_def)
next
  case (Some r)
  then show ?thesis using g known_endpoint_init[of db "row_found r"]
    by (simp add: Creds_init_def)
qed

lemma count_update:
  assumes "distinct (map row_id rows)" and "find P rows = Some r" and "P N"
  shows "length (filter P (map (\<lambda>x. if row_id x = row_id r then N else x) rows))
           = length (filter P rows)"
proof -
  have r: "r \<in> set rows" and Pr: "P r"
    using assms(2) by (auto simp: find_Some_iff)
  have "\<And>x. x \<in> set rows \<Longrightarrow> row_id x = row_id r \<Longrightarrow> x = r"
    using assms(1) r by (meson distinct_map inj_onD)
  then have "\<And>x. x \<in> set rows \<Longrightarrow> P (if row_id x = row_id r then N else x) = P x"
    using Pr assms(3) by auto
  then have "filter (P \<circ> (\<lambda>x. if row_id x = row_id r then N else x)) rows = filter P rows"
    by (intro filter_cong) simp_all
  then show ?thesis by (simp add: filter_map)
qed

text \<open>
  C1. When the extension accepts the type and content: construct an instance, save it,
  and construct again from the same type and content. The second instance equals the
  first as saved, so it has the same id, scope and discovery endpoint; the id is set.
  Saving the second instance leaves the table as it is. The first save adds a row only
  when no row of this identity existed; with unique row ids the number of rows of this
  identity stays what it was, or becomes one.
  The constructor reads the store: with no row of the identity the instance has no id,
  is in scope and has no endpoint; with a row, its id is the row's, its scope is whether
  the row's scope is not 0, and its endpoint is the one \<open>Endpoint.find_one\<close> gives for the
  row's \<open>found\<close>. After the save the first row of the identity carries the id and the
  saved scope and endpoint. And whatever scope, and whatever endpoint the store can give
  back, is assigned before the save, the second construction returns it.
\<close>

theorem construct_twice:
  assumes g: "gam t k = Inr ob"
  shows "\<exists>c i db' db''.
           Creds_init gam t k db = Inr c
         \<and> Creds_save c db = (Inr (c\<lparr>creds_id := Some i\<rparr>), db')
         \<and> Creds_init gam t k db' = Inr (c\<lparr>creds_id := Some i\<rparr>)
         \<and> Creds_save (c\<lparr>creds_id := Some i\<rparr>) db' = (Inr (c\<lparr>creds_id := Some i\<rparr>), db'')
         \<and> creds db'' = creds db'
         \<and> length (creds db') =
             (case find (by_identity t (obj_identifier ob)) (creds db) of
                None \<Rightarrow> Suc (length (creds db)) | Some r \<Rightarrow> length (creds db))
         \<and> (distinct (map row_id (creds db)) \<longrightarrow>
              length (filter (by_identity t (obj_identifier ob)) (creds db'))
                = max 1 (length (filter (by_identity t (obj_identifier ob)) (creds db))))
         \<and> (case find (by_identity t (obj_identifier ob)) (creds db) of
               None \<Rightarrow> creds_id c = None \<and> scope c \<and> found c = None
             | Some r \<Rightarrow>
                 creds_id c = Some (row_id r) \<and> scope c = (row_scope r \<noteq> 0)
               \<and> found c = (case row_found r of None \<Rightarrow> None
                             | Some eid \<Rightarrow> Endpoint_find_one eid db))
         \<and> (\<exists>r'. find (by_identity t (obj_identifier ob)) (creds db') = Some r'
                \<and> row_id r' = i \<and> (row_scope r' \<noteq> 0) = scope c
                \<and> (case row_found r' of None \<Rightarrow> None
                    | Some eid \<Rightarrow> Endpoint_find_one eid db') = found c)
         \<and> (\<forall>b f. known_endpoint db f \<longrightarrow>
               (\<exists>db2. Creds_save (c\<lparr>scope := b, found := f\<rparr>) db
                         = (Inr (c\<lparr>scope := b, found := f, creds_id := Some i\<rparr>), db2)
                    \<and> Creds_init gam t k db2
                         = Inr (c\<lparr>scope := b, found := f, creds_id := Some i\<rparr>)))"
proof -
  let ?P = "by_identity t (obj_identifier ob)"
  let ?i = "case find ?P (creds db) of None \<Rightarrow> next_rowid (creds db) | Some r \<Rightarrow> row_id r"
  from init_hydrates[of gam t k ob db] g obtain c where
    i1: "Creds_init gam t k db = Inr c"
    and ct: "credsType c = t" and ck: "credsContent c = k" and co: "obj c = ob"
    and cid: "creds_id c = map_option row_id (find ?P (creds db))"
    and ke: "known_endpoint db (found c)"
    and hyd: "case find ?P (creds db) of
                 None \<Rightarrow> creds_id c = None \<and> scope c \<and> found c = None
               | Some r \<Rightarrow>
                   creds_id c = Some (row_id r) \<and> scope c = (row_scope r \<noteq> 0)
                 \<and> found c = (case row_found r of None \<Rightarrow> None
                               | Some eid \<Rightarrow> Endpoint_find_one eid db)"
    by blast
  from save_then_init[of gam t k ob c db] g ct ck co cid ke obtain i db' where
    s1: "Creds_save c db = (Inr (c\<lparr>creds_id := Some i\<rparr>), db')"
    and i2: "Creds_init gam t k db' = Inr (c\<lparr>creds_id := Some i\<rparr>)"
    and fr: "find ?P (creds db') = Some (row_of c i)"
    and ii: "i = ?i"
    and u: "\<forall>x\<in>set (creds db'). row_id x = i \<longrightarrow> x = row_of c i"
    and rows: "creds db' =
               (case find ?P (creds db) of
                  None \<Rightarrow> creds db @ [row_of c i]
                | Some r \<Rightarrow> map (\<lambda>x. if row_id x = row_id r then row_of c i else x) (creds db))"
    by blast
  have PN: "?P (row_of c i)"
    using ct co by (simp add: by_identity_def row_of_def)
  let ?c' = "c\<lparr>creds_id := Some i\<rparr>"
  let ?db'' = "commit (db'\<lparr>creds := map (\<lambda>r. if row_id r = i then row_of ?c' i else r) (creds db')\<rparr>)"
  have s2: "Creds_save ?c' db' = (Inr ?c', ?db'')"
    by (rule save_update) simp
  have same: "creds ?db'' = creds db'"
    using u by (simp add: map_idI)
  have len: "length (creds db') =
             (case find ?P (creds db) of
                None \<Rightarrow> Suc (length (creds db)) | Some r \<Rightarrow> length (creds db))"
    unfolding rows by (simp split: option.splits)
  have cnt: "length (filter ?P (creds db')) = max 1 (length (filter ?P (creds db)))"
    if d: "distinct (map row_id (creds db))"
  proof (cases "find ?P (creds db)")
    case None
    then have "filter ?P (creds db) = []"
      by (auto simp: find_None_iff filter_empty_conv)
    then show ?thesis using None PN unfolding rows by simp
  next
    case (Some r)
    then have "r \<in> set (creds db)" and "?P r"
      by (auto simp: find_Some_iff)
    then have "filter ?P (creds db) \<noteq> []"
      by (auto simp: filter_empty_conv)
    then have "max 1 (length (filter ?P (creds db))) = length (filter ?P (creds db))"
      by (cases "filter ?P (creds db)") simp_all
    moreover have "length (filter ?P (creds db')) = length (filter ?P (creds db))"
      using count_update[OF d Some PN] Some unfolding rows by simp
    ultimately show ?thesis by (simp only:)
  qed
  have e': "endpoints db' = endpoints db"
    using s1 by (auto simp: Creds_save_def Let_def split: option.splits)
  have stored: "\<exists>r'. find ?P (creds db') = Some r'
                \<and> row_id r' = i \<and> (row_scope r' \<noteq> 0) = scope c
                \<and> (case row_found r' of None \<Rightarrow> None
                    | Some eid \<Rightarrow> Endpoint_find_one eid db') = found c"
  proof -
    have "\<And>eid. Endpoint_find_one eid db' = Endpoint_find_one eid db"
      using e' by (simp add: Endpoint_find_one_def)
    then have "(case row_found (row_of c i) of None \<Rightarrow> None
                    | Some eid \<Rightarrow> Endpoint_find_one eid db') = found c"
      using known_endpoint_refind[OF ke] by (simp add: row_of_def cong: option.case_cong)
    then show ?thesis using fr by (simp add: row_of_def)
  qed
  have modified: "\<exists>db2. Creds_save (c\<lparr>scope := b, found := f\<rparr>) db
                         = (Inr (c\<lparr>scope := b, found := f, creds_id := Some i\<rparr>), db2)
                    \<and> Creds_init gam t k db2
                         = Inr (c\<lparr>scope := b, found := f, creds_id := Some i\<rparr>)"
    if kf: "known_endpoint db f" for b f
  proof -
    let ?m = "c\<lparr>scope := b, found := f\<rparr>"
    from save_then_init[of gam t k ob ?m db] g ct ck co cid kf obtain j db2 where
      a: "Creds_save ?m db = (Inr (?m\<lparr>creds_id := Some j\<rparr>), db2)"
      and b: "Creds_init gam t k db2 = Inr (?m\<lparr>creds_id := Some j\<rparr>)"
      and jj: "j = ?i"
      by auto
    from jj ii have "j = i" by simp
    with a b show ?thesis by auto
  qed
  show ?thesis
    apply (rule exI[of _ c], rule exI[of _ i], rule exI[of _ db'], rule exI[of _ ?db''])
    apply (intro conjI)
    subgoal by (rule i1)
    subgoal by (rule s1)
    subgoal by (rule i2)
    subgoal by (rule s2)
    subgoal by (rule same)
    subgoal by (rule len)
    subgoal using cnt by blast
    subgoal by (rule hyd)
    subgoal by (rule stored)
    subgoal using modified by blast
    done
qed

text \<open>
  The scenario of the specification: \<open>password\<close>, \<open>user:pass\<close> on the empty database. The
  first save inserts row 1; the instance built again from the same input has id 1 and
  is in scope. On the database of the examples the same input is hydrated from row 5,
  with the endpoint 2 it was found on, and \<open>root:toor\<close> from row 6, out of scope.
\<close>

theorem construct_twice_witness:
  "sample_methods ''password'' ''root:toor'' = Inr \<lparr>obj_identifier = ''root''\<rparr>
   \<and> Creds_init sample_methods ''password'' ''user:pass'' empty_db = Inr unsaved_creds
   \<and> Creds_init sample_methods ''password'' ''user:pass'' (snd (Creds_save unsaved_creds empty_db))
       = Inr (unsaved_creds\<lparr>creds_id := Some 1\<rparr>)
   \<and> Creds_init sample_methods ''password'' ''user:pass''
         (snd (Creds_save (unsaved_creds\<lparr>scope := False\<rparr>) empty_db))
       = Inr (unsaved_creds\<lparr>scope := False, creds_id := Some 1\<rparr>)
   \<and> Creds_init sample_methods ''password'' ''user:pass'' sample_db = Inr saved_creds
   \<and> Creds_init sample_methods ''password'' ''root:toor'' sample_db
       = Inr \<lparr>credsType = ''password'', credsContent = ''root:toor'',
              obj = \<lparr>obj_identifier = ''root''\<rparr>,
              creds_id = Some 6, scope = False, found = None\<rparr>
   \<and> (\<exists>c i db' db''.
           Creds_init sample_methods ''password'' ''root:toor'' sample_db = Inr c
         \<and> Creds_save c sample_db = (Inr (c\<lparr>creds_id := Some i\<rparr>), db')
         \<and> Creds_init sample_methods ''password'' ''root:toor'' db' = Inr (c\<lparr>creds_id := Some i\<rparr>)
         \<and> Creds_save (c\<lparr>creds_id := Some i\<rparr>) db' = (Inr (c\<lparr>creds_id := Some i\<rparr>), db'')
         \<and> creds db'' = creds db'
         \<and> length (creds db') =
             (case find (by_identity ''password'' (obj_identifier \<lparr>obj_identifier = ''root''\<rparr>)) (creds sample_db) of
                None \<Rightarrow> Suc (length (creds sample_db)) | Some r \<Rightarrow> length (creds sample_db))
         \<and> (distinct (map row_id (creds sample_db)) \<longrightarrow>
              length (filter (by_identity ''password'' (obj_identifier \<lparr>obj_identifier = ''root''\<rparr>)) (creds db'))
                = max 1 (length (filter (by_identity ''password'' (obj_identifier \<lparr>obj_identifier = ''root''\<rparr>)) (creds sample_db))))
         \<and> (case find (by_identity ''password'' (obj_identifier \<lparr>obj_identifier = ''root''\<rparr>)) (creds sample_db) of
               None \<Rightarrow> creds_id c = None \<and> scope c \<and> found c = None
             | Some r \<Rightarrow>
                 creds_id c = Some (row_id r) \<and> scope c = (row_scope r \<noteq> 0)
               \<and> found c = (case row_found r of None \<Rightarrow> None
                             | Some eid \<Rightarrow> Endpoint_find_one eid sample_db))
         \<and> (\<exists>r'. find (by_identity ''password'' (obj_identifier \<lparr>obj_identifier = ''root''\<rparr>)) (creds db') = Some r'
                \<and> row_id r' = i \<and> (row_scope r' \<noteq> 0) = scope c
                \<and> (case row_found r' of None \<Rightarrow> None
                    | Some eid \<Rightarrow> Endpoint_find_one eid db') = found c)
         \<and> (\<forall>b f. known_endpoint sample_db f \<longrightarrow>
               (\<exists>db2. Creds_save (c\<lparr>scope := b, found := f\<rparr>) sample_db
                         = (Inr (c\<lparr>scope := b, found := f, creds_id := Some i\<rparr>), db2)
                    \<and> Creds_init sample_methods ''password'' ''root:toor'' db2
                         = Inr (c\<lparr>scope := b, found := f, creds_id := Some i\<rparr>))))"
proof -
  have u: "sample_methods ''password'' ''user:pass'' = Inr \<lparr>obj_identifier = ''user''\<rparr>"
    by (simp add: sample_methods_def)
  have a: "sample_methods ''password'' ''root:toor'' = Inr \<lparr>obj_identifier = ''root''\<rparr>"
    by (simp add: sample_methods_def)
  have b: "Creds_init sample_methods ''password'' ''user:pass'' empty_db = Inr unsaved_creds"
    by (simp add: Creds_init_def u unsaved_creds_def empty_db_def)
  have c: "Creds_init sample_methods ''password'' ''user:pass''
             (snd (Creds_save unsaved_creds empty_db))
       = Inr (unsaved_creds\<lparr>creds_id := Some 1\<rparr>)"
    by (simp add: Creds_init_def Creds_save_def u unsaved_creds_def empty_db_def
        next_rowid_def by_identity_def row_of_def Let_def)
  have c': "Creds_init sample_methods ''password'' ''user:pass''
         (snd (Creds_save (unsaved_creds\<lparr>scope := False\<rparr>) empty_db))
       = Inr (unsaved_creds\<lparr>scope := False, creds_id := Some 1\<rparr>)"
    by (simp add: Creds_init_def Creds_save_def u unsaved_creds_def empty_db_def
        next_rowid_def by_identity_def row_of_def Let_def)
  have d: "Creds_init sample_methods ''password'' ''user:pass'' sample_db = Inr saved_creds"
    by (simp add: Creds_init_def u sample_db_def saved_creds_def by_identity_def
        Endpoint_find_one_def)
  have e: "Creds_init sample_methods ''password'' ''root:toor'' sample_db
       = Inr \<lparr>credsType = ''password'', credsContent = ''root:toor'',
              obj = \<lparr>obj_identifier = ''root''\<rparr>,
              creds_id = Some 6, scope = False, found = None\<rparr>"
    by (simp add: Creds_init_def a sample_db_def by_identity_def)
  note t = construct_twice[of sample_methods "''password''" "''root:toor''"
      "\<lparr>obj_identifier = ''root''\<rparr>" sample_db, OF a]
  show ?thesis
    apply (intro conjI)
          apply (rule a)
         apply (rule b)
        apply (rule c)
       apply (rule c')
      apply (rule d)
     apply (rule e)
    apply (rule t)
    done
qed

subsection \<open>Saving\<close>

text \<open>
  C8. Saving an unsaved instance twice: the first \<open>save\<close> appends one row and sets the id
  to that of the first row of the instance's identity; the second \<open>save\<close> returns the
  instance unchanged, so with the same id, and rewrites the rows of that id in place:
  the table keeps its length and its ids. When no row of the identity existed before,
  the second \<open>save\<close> leaves the table as it is.
\<close>

theorem save_twice:
  assumes "creds_id c = None"
  shows "\<exists>i db' db''.
           Creds_save c db = (Inr (c\<lparr>creds_id := Some i\<rparr>), db')
         \<and> creds db' = creds db @ [row_of c (next_rowid (creds db))]
         \<and> map_option row_id
              (find (by_identity (credsType c) (obj_identifier (obj c))) (creds db')) = Some i
         \<and> Creds_save (c\<lparr>creds_id := Some i\<rparr>) db' = (Inr (c\<lparr>creds_id := Some i\<rparr>), db'')
         \<and> creds db'' = map (\<lambda>r. if row_id r = i then row_of c i else r) (creds db')
         \<and> map row_id (creds db'') = map row_id (creds db')
         \<and> length (creds db'') = length (creds db')
         \<and> (find (by_identity (credsType c) (obj_identifier (obj c))) (creds db) = None
              \<longrightarrow> creds db'' = creds db')"
proof -
  let ?P = "by_identity (credsType c) (obj_identifier (obj c))"
  let ?n = "next_rowid (creds db)"
  from save_insert[OF assms, of db] obtain r where
    f: "find ?P (creds db @ [row_of c ?n]) = Some r"
    and s: "Creds_save c db =
               (Inr (c\<lparr>creds_id := Some (row_id r)\<rparr>),
                commit (db\<lparr>creds := creds db @ [row_of c ?n]\<rparr>))"
    by blast
  let ?c' = "c\<lparr>creds_id := Some (row_id r)\<rparr>"
  let ?db' = "commit (db\<lparr>creds := creds db @ [row_of c ?n]\<rparr>)"
  let ?db'' = "commit (?db'\<lparr>creds := map (\<lambda>x. if row_id x = row_id r then row_of ?c' (row_id r) else x) (creds ?db')\<rparr>)"
  have u: "Creds_save ?c' ?db' = (Inr ?c', ?db'')"
    by (rule save_update) simp
  have same: "creds ?db'' = creds ?db'" if none: "find ?P (creds db) = None"
  proof -
    from f none have r: "r = row_of c ?n"
      by (simp add: find_snoc split: if_splits)
    have "\<forall>x\<in>set (creds db). row_id x \<noteq> ?n"
      using next_rowid_fresh[of _ "creds db"] by fastforce
    then show ?thesis by (simp add: r update_fresh)
  qed
  show ?thesis
    apply (rule exI[of _ "row_id r"], rule exI[of _ ?db'], rule exI[of _ ?db''])
    using s u f same by simp
qed

theorem save_twice_witness:
  "creds_id unsaved_creds = None
   \<and> Creds_save unsaved_creds empty_db
       = (Inr (unsaved_creds\<lparr>creds_id := Some 1\<rparr>),
          commit (empty_db\<lparr>creds := [row_of unsaved_creds 1]\<rparr>))
   \<and> (\<exists>i db' db''.
           Creds_save unsaved_creds empty_db = (Inr (unsaved_creds\<lparr>creds_id := Some i\<rparr>), db')
         \<and> creds db' = creds empty_db @ [row_of unsaved_creds (next_rowid (creds empty_db))]
         \<and> map_option row_id
              (find (by_identity (credsType unsaved_creds) (obj_identifier (obj unsaved_creds)))
                 (creds db')) = Some i
         \<and> Creds_save (unsaved_creds\<lparr>creds_id := Some i\<rparr>) db'
             = (Inr (unsaved_creds\<lparr>creds_id := Some i\<rparr>), db'')
         \<and> creds db'' = map (\<lambda>r. if row_id r = i then row_of unsaved_creds i else r) (creds db')
         \<and> map row_id (creds db'') = map row_id (creds db')
         \<and> length (creds db'') = length (creds db')
         \<and> (find (by_identity (credsType unsaved_creds) (obj_identifier (obj unsaved_creds)))
               (creds empty_db) = None
              \<longrightarrow> creds db'' = creds db'))"
proof -
  have h: "creds_id unsaved_creds = None"
    by (simp add: unsaved_creds_def)
  have e: "Creds_save unsaved_creds empty_db
       = (Inr (unsaved_creds\<lparr>creds_id := Some 1\<rparr>),
          commit (empty_db\<lparr>creds := [row_of unsaved_creds 1]\<rparr>))"
    by (simp add: Creds_save_def unsaved_creds_def empty_db_def next_rowid_def
        by_identity_def row_of_def Let_def)
  from save_twice[OF h, of empty_db] h e show ?thesis by blast
qed

text \<open>
  C6 (as the code has it). \<open>UPDATE ... WHERE id = ?\<close> with an id that no row has changes no
  row and raises nothing: \<open>save\<close> returns the instance unchanged, the table is as before,
  and the commit is made.
\<close>

theorem save_unknown_id:
  assumes "creds_id c = Some i" and "i \<notin> set (map row_id (creds db))"
  shows "Creds_save c db = (Inr c, commit db)"
proof -
  have "\<forall>r\<in>set (creds db). row_id r \<noteq> i"
    using assms(2) by auto
  then show ?thesis
    using assms(1) by (simp add: save_update update_fresh)
qed

theorem save_unknown_id_witness:
  "creds_id (unsaved_creds\<lparr>creds_id := Some 7\<rparr>) = Some 7
   \<and> 7 \<notin> set (map row_id (creds sample_db))
   \<and> Creds_save (unsaved_creds\<lparr>creds_id := Some 7\<rparr>) sample_db
       = (Inr (unsaved_creds\<lparr>creds_id := Some 7\<rparr>), commit sample_db)"
proof -
  have a: "creds_id (unsaved_creds\<lparr>creds_id := Some 7\<rparr>) = Some 7"
    by simp
  have b: "7 \<notin> set (map row_id (creds sample_db))"
    by (simp add: sample_db_def)
  from save_unknown_id[OF a b] a b show ?thesis by blast
qed

text \<open>
  The specification asks for \<open>NotFoundError\<close> here (C6). On the code, the instance with
  id 7 is saved on a table whose ids are 5 and 6, and \<open>save\<close> returns normally with the
  table unchanged.
\<close>

theorem save_unknown_id_counterexample:
  "map row_id (creds sample_db) = [5, 6]
   \<and> fst (Creds_save (unsaved_creds\<lparr>creds_id := Some 7\<rparr>) sample_db)
       = Inr (unsaved_creds\<lparr>creds_id := Some 7\<rparr>)
   \<and> creds (snd (Creds_save (unsaved_creds\<lparr>creds_id := Some 7\<rparr>) sample_db))
       = creds sample_db"
  by (simp add: Creds_save_def sample_db_def unsaved_creds_def commit_def)

subsection \<open>Uniqueness of the identity\<close>

lemma by_identity_key: "by_identity t i r = (row_key r = (t, i))"
  by (auto simp: by_identity_def row_key_def)

lemma row_key_row_of [simp]: "row_key (row_of c i) = creds_key c"
  by (simp add: row_key_def row_of_def creds_key_def)

lemma keyed_rows_commit [simp]: "keyed_rows (commit db) = keyed_rows db"
  by (simp add: keyed_rows_def)

lemma next_rowid_not_in: "next_rowid (creds db) \<notin> fst ` set (keyed_rows db)"
  using next_rowid_fresh[of _ "creds db"] by (fastforce simp: keyed_rows_def)

lemma keyed_rows_update:
  assumes "distinct (map fst (keyed_rows db))" and "(i, creds_key c) \<in> set (keyed_rows db)"
  shows "keyed_rows (db\<lparr>creds := map (\<lambda>r. if row_id r = i then row_of c i else r) (creds db)\<rparr>)
           = keyed_rows db"
proof -
  have "\<And>r. r \<in> set (creds db) \<Longrightarrow> row_id r = i \<Longrightarrow> row_key r = creds_key c"
  proof -
    fix r assume r: "r \<in> set (creds db)" "row_id r = i"
    then have "(i, row_key r) \<in> set (keyed_rows db)" by (force simp: keyed_rows_def)
    with assms show "row_key r = creds_key c"
      by (metis eq_key_imp_eq_value)
  qed
  then show ?thesis by (simp add: keyed_rows_def)
qed

lemma find_new_identity:
  assumes "creds_key c \<notin> snd ` set (keyed_rows db)"
  shows "find (by_identity (credsType c) (obj_identifier (obj c))) (creds db @ [row_of c n])
           = Some (row_of c n)"
proof -
  have "find (by_identity (credsType c) (obj_identifier (obj c))) (creds db) = None"
    using assms by (force simp: find_None_iff by_identity_key keyed_rows_def creds_key_def)
  then show ?thesis by (simp add: find_snoc)
qed

lemma in_step_cong:
  assumes "keyed_rows db' = keyed_rows db"
  shows "in_step db' c = in_step db c"
  unfolding in_step_def assms ..

lemma in_step_init:
  assumes "Creds_init gam t content db = Inr c"
  shows "consistent gam c \<and> in_step db c
       \<and> get_id gam H t content = Inr (H (credsType c @ obj_identifier (obj c)))"
proof (cases "gam t content")
  case (Inl e)
  then show ?thesis using assms by (simp add: Creds_init_def)
next
  case (Inr ob)
  show ?thesis
  proof (cases "find (by_identity t (obj_identifier ob)) (creds db)")
    case None
    then have c: "c = \<lparr>credsType = t, credsContent = content, obj = ob,
                    creds_id = None, scope = True, found = None\<rparr>"
      using assms Inr by (simp add: Creds_init_def)
    have "(t, obj_identifier ob) \<notin> snd ` set (keyed_rows db)"
      using None by (force simp: find_None_iff by_identity_key keyed_rows_def)
    then show ?thesis using Inr
      by (simp add: c consistent_def in_step_def creds_key_def get_id_def)
  next
    case (Some r)
    then have c: "c = \<lparr>credsType = t, credsContent = content, obj = ob,
                    creds_id = Some (row_id r), scope = (row_scope r \<noteq> 0),
                    found = (case row_found r of None \<Rightarrow> None
                             | Some eid \<Rightarrow> Endpoint_find_one eid db)\<rparr>"
      using assms Inr by (simp add: Creds_init_def)
    have "r \<in> set (creds db)" and "row_key r = (t, obj_identifier ob)"
      using Some by (auto simp: find_Some_iff by_identity_key)
    then have "(row_id r, (t, obj_identifier ob)) \<in> set (keyed_rows db)"
      by (force simp: keyed_rows_def)
    then show ?thesis using Inr
      by (simp add: c consistent_def in_step_def creds_key_def get_id_def)
  qed
qed

lemma cached_ok_restart: "cached_ok gam H w \<Longrightarrow> cached_ok gam H (w\<lparr>store := Map.empty\<rparr>)"
  by (simp add: cached_ok_def)

lemma cached_ok_construct:
  assumes "cached_ok gam H w"
  shows "cached_ok gam H (snd (Unique_call gam H t content w))"
proof (cases "get_id gam H t content")
  case (Inl e)
  then show ?thesis using assms by (simp add: Unique_call_def)
next
  case (Inr k)
  show ?thesis
  proof (cases "store w k")
    case (Some c)
    then show ?thesis using assms Inr by (simp add: Unique_call_def)
  next
    case None
    show ?thesis
    proof (cases "Creds_init gam t content (ws_db w)")
      case (Inl e)
      then show ?thesis using assms Inr None by (simp add: Unique_call_def)
    next
      case c: (Inr c)
      have u: "snd (Unique_call gam H t content w) = w\<lparr>store := (store w)(k \<mapsto> c)\<rparr>"
        using Inr None c by (simp add: Unique_call_def)
      from in_step_init[OF c, of H] Inr
      have "consistent gam c" and "in_step (ws_db w) c"
        and "k = H (credsType c @ obj_identifier (obj c))" by simp_all
      then show ?thesis unfolding u using assms by (simp add: cached_ok_def)
    qed
  qed
qed

lemma cached_ok_save:
  assumes inv: "cached_ok gam H w"
  shows "cached_ok gam H (save_ref k w)"
proof (cases "store w k")
  case None
  then show ?thesis using inv by (simp add: save_ref_def)
next
  case c: (Some c)
  from inv c have cons: "consistent gam c"
    and k: "k = H (credsType c @ obj_identifier (obj c))"
    and known: "in_step (ws_db w) c"
    by (simp_all add: cached_ok_def)
  show ?thesis
  proof (cases "creds_id c")
    case (Some i)
    have mem: "(i, creds_key c) \<in> set (keyed_rows (ws_db w))"
      using known Some by (simp add: in_step_def)
    have d: "distinct (map fst (keyed_rows (ws_db w)))" using inv by (simp add: cached_ok_def)
    have s: "save_ref k w = w\<lparr>ws_db := commit ((ws_db w)\<lparr>creds := map (\<lambda>r. if row_id r = i then row_of c i else r) (creds (ws_db w))\<rparr>),
                               store := (store w)(k \<mapsto> c)\<rparr>"
      using c Some by (simp add: save_ref_def save_update)
    have st: "(store w)(k \<mapsto> c) = store w" using c by (simp add: fun_upd_idem)
    have kr: "keyed_rows (commit ((ws_db w)\<lparr>creds := map (\<lambda>r. if row_id r = i then row_of c i else r) (creds (ws_db w))\<rparr>))
                = keyed_rows (ws_db w)"
      using keyed_rows_update[OF d mem] by simp
    show ?thesis
      unfolding s st using inv by (simp add: cached_ok_def keyed_rows_update[OF d mem] in_step_cong[OF kr])
  next
    case None
    let ?n = "next_rowid (creds (ws_db w))"
    let ?db' = "(ws_db w)\<lparr>creds := creds (ws_db w) @ [row_of c ?n]\<rparr>"
    let ?c' = "c\<lparr>creds_id := Some ?n\<rparr>"
    have new: "creds_key c \<notin> snd ` set (keyed_rows (ws_db w))"
      using known None by (simp add: in_step_def)
    have sv: "Creds_save c (ws_db w) = (Inr ?c', commit ?db')"
      using None find_new_identity[OF new, of ?n] by (simp add: Creds_save_def Let_def)
    have s: "save_ref k w = w\<lparr>ws_db := commit ?db', store := (store w)(k \<mapsto> ?c')\<rparr>"
      using c sv by (simp add: save_ref_def)
    have kr: "keyed_rows ?db' = keyed_rows (ws_db w) @ [(?n, creds_key c)]"
      by (simp add: keyed_rows_def)
    have fresh: "?n \<notin> fst ` set (keyed_rows (ws_db w))" by (rule next_rowid_not_in)
    have d1: "distinct (map fst (keyed_rows ?db'))"
      using inv fresh unfolding kr by (simp add: cached_ok_def)
    have d2: "distinct (map snd (keyed_rows ?db'))"
      using inv new unfolding kr by (simp add: cached_ok_def)
    have self: "consistent gam ?c' \<and> k = H (credsType ?c' @ obj_identifier (obj ?c'))
          \<and> in_step ?db' ?c'"
      using cons k unfolding in_step_def kr by (simp add: consistent_def creds_key_def)
    have others: "consistent gam c' \<and> k' = H (credsType c' @ obj_identifier (obj c'))
          \<and> in_step ?db' c'" if ne: "k' \<noteq> k" and st: "store w k' = Some c'" for k' c'
    proof -
      from inv st have a: "consistent gam c'"
        and b: "k' = H (credsType c' @ obj_identifier (obj c'))"
        and cc: "in_step (ws_db w) c'"
        by (simp_all add: cached_ok_def)
      have "creds_key c' \<noteq> creds_key c"
        using ne b k by (auto simp: creds_key_def)
      with cc have "in_step ?db' c'"
        unfolding in_step_def kr by (auto split: option.splits)
      with a b show ?thesis by simp
    qed
    have all: "consistent gam c' \<and> k' = H (credsType c' @ obj_identifier (obj c'))
          \<and> in_step ?db' c'" if h: "((store w)(k \<mapsto> ?c')) k' = Some c'" for k' c'
    proof (cases "k' = k")
      case True
      with h have "c' = ?c'" by simp
      with self True show ?thesis by simp
    next
      case False
      with h have "store w k' = Some c'" by simp
      from others[OF False this] show ?thesis .
    qed
    have ic: "\<And>x. in_step (commit ?db') x = in_step ?db' x"
      by (rule in_step_cong) simp
    show ?thesis
      unfolding s cached_ok_def using d1 d2 all by (simp add: ic)
  qed
qed

lemma cached_ok_step: "cached_ok gam H w \<Longrightarrow> cached_ok gam H (step gam H a w)"
  by (cases a) (simp_all add: cached_ok_construct cached_ok_save cached_ok_restart)

lemma cached_ok_run: "cached_ok gam H w \<Longrightarrow> cached_ok gam H (run gam H acts w)"
  unfolding run_def by (induction acts arbitrary: w) (simp_all add: cached_ok_step)

lemma cached_ok_new: "cached_ok gam H new_workspace"
  by (simp add: cached_ok_def new_workspace_def empty_db_def keyed_rows_def)

text \<open>
  C2. Start from the empty workspace and let a caller construct instances, save
  instances it holds, and restart the process, in any order and any number of times.
  In the database reached, no two rows of the table \<open>creds\<close> have the same type and
  identifier. The lookup of \<open>__init__\<close> decides between insert and update; the shared
  instance keeps that decision current until \<open>save\<close> runs.
\<close>

theorem identity_unique:
  "distinct (map row_key (creds (ws_db (run gam H acts new_workspace))))"
proof -
  have "cached_ok gam H (run gam H acts new_workspace)"
    by (rule cached_ok_run[OF cached_ok_new])
  then have "distinct (map snd (keyed_rows (ws_db (run gam H acts new_workspace))))"
    by (simp add: cached_ok_def)
  then show ?thesis by (simp add: keyed_rows_def comp_def)
qed


text \<open>
  Two constructions of one identity from different contents, then two saves through the
  shared instance: one row.
\<close>

lemma shared_instance_example:
  "map row_key (creds (ws_db (run sample_methods sample_digest
      [Construct ''password'' ''user:pass'', Construct ''password'' ''user:other'',
       Save ''sha256:passworduser'', Save ''sha256:passworduser''] new_workspace)))
   = [(''password'', ''user'')]"
  by (simp add: run_def Unique_call_def save_ref_def get_id_def Creds_init_def Creds_save_def
      sample_methods_def sample_digest_def new_workspace_def empty_db_def by_identity_def
      row_of_def row_key_def next_rowid_def commit_def Let_def)

text \<open>
  The sharing matters. Two instances that \<open>__init__\<close> builds on the empty database before
  either is saved are both without id; saving one and then the other, unshared, inserts
  twice and leaves two rows of the same identity.
\<close>

lemma unshared_instances_example:
  "Creds_init sample_methods ''password'' ''user:pass'' empty_db = Inr unsaved_creds
   \<and> map row_key (creds (snd (Creds_save unsaved_creds (snd (Creds_save unsaved_creds empty_db)))))
       = [(''password'', ''user''), (''password'', ''user'')]"
  by (simp add: Creds_init_def Creds_save_def sample_methods_def unsaved_creds_def empty_db_def
      by_identity_def row_of_def row_key_def next_rowid_def commit_def Let_def)

subsection \<open>Deletion\<close>

lemma reported_merge:
  "reported (unstore_targets_merge a b) kind ident
     = (reported a kind ident \<or> reported b kind ident)"
  by (auto simp: reported_def unstore_targets_merge_def split: option.splits)

lemma merge_empty [simp]: "unstore_targets_merge Map.empty b = b"
  by (rule ext) (simp add: unstore_targets_merge_def split: option.splits)

lemma cascade_append:
  "cascade cd (pre @ xs) d db =
     (case cascade cd pre d db of
        (Inl e, db') \<Rightarrow> (Inl e, db')
      | (Inr rep, db') \<Rightarrow> cascade cd xs rep db')"
  by (induction pre arbitrary: d db) (auto split: prod.splits sum.splits)

lemma cascade_fails_at:
  assumes "cascade cd pre d db = (Inr rep, db1)" and "cd x db1 = (Inl e, db2)"
  shows "cascade cd (pre @ x # post) d db = (Inl e, db2)"
  using assms by (simp add: cascade_append)

lemma cascade_connections:
  assumes "removes_connection cd" and "cascade cd xs d db = (Inr rep, db1)"
  shows "set (connections db1) \<subseteq> set (connections db) - set xs"
  using assms(2)
proof (induction xs arbitrary: d db)
  case Nil
  then show ?case by simp
next
  case (Cons x xs)
  from Cons.prems obtain r db' where c: "cd x db = (Inr r, db')"
    and rest: "cascade cd xs (unstore_targets_merge d r) db' = (Inr rep, db1)"
    by (auto split: prod.splits sum.splits)
  from assms(1) c have "set (connections db') \<subseteq> set (connections db) - {x}"
    unfolding removes_connection_def by blast
  with Cons.IH[OF rest] show ?case by auto
qed

lemma cascade_reported:
  assumes "cascade cd xs d db = (Inr rep, db1)"
  shows "length (cascade_reports cd xs db) = length xs
       \<and> (reported rep kind ident
            = (reported d kind ident
               \<or> (\<exists>r\<in>set (cascade_reports cd xs db). reported r kind ident)))"
  using assms
proof (induction xs arbitrary: d db)
  case Nil
  then show ?case by simp
next
  case (Cons x xs)
  from Cons.prems obtain r db' where c: "cd x db = (Inr r, db')"
    and rest: "cascade cd xs (unstore_targets_merge d r) db' = (Inr rep, db1)"
    by (auto split: prod.splits sum.splits)
  from Cons.IH[OF rest] c show ?case by (auto simp: reported_merge)
qed

lemma find_all_none:
  assumes "creds_id c = Some i" and "\<forall>x\<in>set (connections db). conn_creds x \<noteq> i"
  shows "Connection_find_all c db = []"
  using assms by (auto simp: Connection_find_all_def filter_empty_conv)

lemma Creds_delete_unfold:
  "Creds_delete cd gam H self db =
     (case creds_id self of
        None \<Rightarrow> (Inr None, db)
      | Some i \<Rightarrow>
          (case cascade cd (Connection_find_all self db) Map.empty db of
             (Inl e, db1) \<Rightarrow> (Inl e, db1)
           | (Inr del_data, db1) \<Rightarrow>
               (let db2 = obj_delete (obj self) db1;
                    db3 = db2\<lparr>creds := filter (\<lambda>r. row_id r \<noteq> i) (creds db2)\<rparr>;
                    db4 = commit db3
                in case get_id gam H (credsType self) (credsContent self) of
                     Inl e \<Rightarrow> (Inl e, db4)
                   | Inr fp \<Rightarrow>
                       (Inr (Some (unstore_targets_merge del_data [''Creds'' \<mapsto> [fp]])), db4))))"
  by (simp add: Creds_delete_def Creds_delete_traced_def Let_def
      split: option.splits prod.splits sum.splits)

lemma delete_saved:
  assumes "creds_id c = Some i" and "consistent gam c"
    and "cascade cd (Connection_find_all c db) Map.empty db = (Inr rep, db1)"
  shows "Creds_delete cd gam H c db =
           (Inr (Some (unstore_targets_merge rep
                         [''Creds'' \<mapsto> [H (credsType c @ obj_identifier (obj c))]])),
            commit (db1\<lparr>side_state := filter (\<lambda>x. x \<noteq> obj c) (side_state db1),
                        creds := filter (\<lambda>r. row_id r \<noteq> i) (creds db1)\<rparr>))"
  using assms by (simp add: Creds_delete_unfold consistent_def get_id_def obj_delete_def Let_def)

lemma delete_failed:
  assumes "creds_id c = Some i"
    and "cascade cd (Connection_find_all c db) Map.empty db = (Inl e, db1)"
  shows "Creds_delete cd gam H c db = (Inl e, db1)"
  using assms by (simp add: Creds_delete_unfold)

text \<open>What is left after the last step of a deletion whose loop ran through.\<close>

lemma delete_leaves:
  assumes "creds_id c = Some i" and "removes_connection cd"
    and "cascade cd (Connection_find_all c db) Map.empty db = (Inr rep, db1)"
    and "db' = commit (db1\<lparr>side_state := filter (\<lambda>x. x \<noteq> obj c) (side_state db1),
                           creds := filter (\<lambda>r. row_id r \<noteq> i) (creds db1)\<rparr>)"
  shows "Connection_find_all c db' = []
       \<and> obj c \<notin> set (side_state db')
       \<and> (\<forall>r\<in>set (creds db'). row_id r \<noteq> i)
       \<and> commits db' = Suc (commits db1)"
proof -
  have conns: "set (connections db1) \<subseteq> set (connections db) - set (Connection_find_all c db)"
    by (rule cascade_connections[OF assms(2,3)])
  have "Connection_find_all c db' = []"
  proof (rule find_all_none[OF assms(1)], rule ballI)
    fix x assume "x \<in> set (connections db')"
    then have "x \<in> set (connections db)" and "x \<notin> set (Connection_find_all c db)"
      using conns assms(4) by auto
    then show "conn_creds x \<noteq> i"
      using assms(1) by (auto simp: Connection_find_all_def)
  qed
  then show ?thesis using assms(4) by simp
qed

lemma Connection_delete_removes: "removes_connection Connection_delete"
  by (auto simp: removes_connection_def Connection_delete_def)

text \<open>
  C3. A saved, consistent instance is deleted and no \<open>connection.delete()\<close> raises, each
  of them keeping its contract. Then \<open>connection.delete()\<close> has run once for each of the N
  connections that referred to the credential; afterwards no connection refers to it, the
  side state of its object is gone, no row has its id, one commit follows the loop, and
  the report returned lists the fingerprint under \<open>Creds\<close> and otherwise exactly what the
  N connection deletions reported.
\<close>

theorem delete_cascade_complete:
  assumes "creds_id c = Some i" and "consistent gam c" and "removes_connection cd"
    and "cascade cd (Connection_find_all c db) Map.empty db = (Inr rep, db1)"
  shows "\<exists>final db'.
           Creds_delete cd gam H c db = (Inr (Some final), db')
         \<and> length (cascade_reports cd (Connection_find_all c db) db)
             = length (Connection_find_all c db)
         \<and> Connection_find_all c db' = []
         \<and> obj c \<notin> set (side_state db')
         \<and> (\<forall>r\<in>set (creds db'). row_id r \<noteq> i)
         \<and> commits db' = Suc (commits db1)
         \<and> get_id gam H (credsType c) (credsContent c)
             = Inr (H (credsType c @ obj_identifier (obj c)))
         \<and> reported final ''Creds'' (H (credsType c @ obj_identifier (obj c)))
         \<and> (\<forall>kind ident. reported final kind ident =
              ((kind = ''Creds'' \<and> ident = H (credsType c @ obj_identifier (obj c)))
               \<or> (\<exists>r\<in>set (cascade_reports cd (Connection_find_all c db) db).
                     reported r kind ident)))"
proof -
  let ?fp = "H (credsType c @ obj_identifier (obj c))"
  let ?final = "unstore_targets_merge rep [''Creds'' \<mapsto> [?fp]]"
  let ?db' = "commit (db1\<lparr>side_state := filter (\<lambda>x. x \<noteq> obj c) (side_state db1),
                        creds := filter (\<lambda>r. row_id r \<noteq> i) (creds db1)\<rparr>)"
  have d: "Creds_delete cd gam H c db = (Inr (Some ?final), ?db')"
    by (rule delete_saved[OF assms(1,2,4)])
  note left = delete_leaves[OF assms(1,3,4) refl]
  have rp: "\<And>kind ident. reported rep kind ident
              = (\<exists>r\<in>set (cascade_reports cd (Connection_find_all c db) db). reported r kind ident)"
    using cascade_reported[OF assms(4)] by (simp add: reported_def)
  have own: "\<And>kind ident. reported [''Creds'' \<mapsto> [?fp]] kind ident
              = (kind = ''Creds'' \<and> ident = ?fp)"
    by (auto simp: reported_def)
  have g: "get_id gam H (credsType c) (credsContent c) = Inr ?fp"
    using assms(2) by (simp add: consistent_def get_id_def)
  show ?thesis
    apply (rule exI[of _ ?final], rule exI[of _ ?db'])
    apply (intro conjI)
    subgoal by (rule d)
    subgoal using cascade_reported[OF assms(4)] by simp
    subgoal using left by blast
    subgoal using left by blast
    subgoal using left by blast
    subgoal using left by blast
    subgoal by (rule g)
    subgoal by (simp add: reported_merge own)
    subgoal by (auto simp: reported_merge own rp)
    done
qed

lemma saved_creds_facts:
  "creds_id saved_creds = Some 5" "consistent sample_methods saved_creds"
  "Connection_find_all saved_creds sample_db
     = [\<lparr>conn_name = ''c1'', conn_creds = 5\<rparr>, \<lparr>conn_name = ''c2'', conn_creds = 5\<rparr>]"
  by (simp_all add: saved_creds_def consistent_def sample_methods_def
      Connection_find_all_def sample_db_def)

lemma sample_cascade:
  "\<exists>rep db1. cascade Connection_delete (Connection_find_all saved_creds sample_db)
                Map.empty sample_db = (Inr rep, db1)"
  by (simp add: saved_creds_facts Connection_delete_def)

theorem delete_cascade_complete_witness:
  "creds_id saved_creds = Some 5 \<and> consistent sample_methods saved_creds
   \<and> removes_connection Connection_delete
   \<and> length (Connection_find_all saved_creds sample_db) = 2
   \<and> sample_digest (credsType saved_creds @ obj_identifier (obj saved_creds))
        = ''sha256:passworduser''
   \<and> (\<exists>rep db1.
         cascade Connection_delete (Connection_find_all saved_creds sample_db)
           Map.empty sample_db = (Inr rep, db1)
       \<and> (\<exists>final db'.
           Creds_delete Connection_delete sample_methods sample_digest saved_creds sample_db
             = (Inr (Some final), db')
         \<and> length (cascade_reports Connection_delete
                     (Connection_find_all saved_creds sample_db) sample_db)
             = length (Connection_find_all saved_creds sample_db)
         \<and> Connection_find_all saved_creds db' = []
         \<and> obj saved_creds \<notin> set (side_state db')
         \<and> (\<forall>r\<in>set (creds db'). row_id r \<noteq> 5)
         \<and> commits db' = Suc (commits db1)
         \<and> get_id sample_methods sample_digest (credsType saved_creds) (credsContent saved_creds)
             = Inr (sample_digest (credsType saved_creds @ obj_identifier (obj saved_creds)))
         \<and> reported final ''Creds''
             (sample_digest (credsType saved_creds @ obj_identifier (obj saved_creds)))
         \<and> (\<forall>kind ident. reported final kind ident =
              ((kind = ''Creds''
                \<and> ident = sample_digest (credsType saved_creds @ obj_identifier (obj saved_creds)))
               \<or> (\<exists>r\<in>set (cascade_reports Connection_delete
                               (Connection_find_all saved_creds sample_db) sample_db).
                     reported r kind ident)))))"
proof -
  obtain rep db1 where c: "cascade Connection_delete (Connection_find_all saved_creds sample_db)
                Map.empty sample_db = (Inr rep, db1)"
    using sample_cascade by blast
  have fp: "sample_digest (credsType saved_creds @ obj_identifier (obj saved_creds))
              = ''sha256:passworduser''"
    by (simp add: sample_digest_def saved_creds_def)
  have n: "length (Connection_find_all saved_creds sample_db) = 2"
    by (simp add: saved_creds_facts)
  note t = delete_cascade_complete[OF saved_creds_facts(1,2) Connection_delete_removes c,
      of sample_digest]
  show ?thesis
    apply (intro conjI)
         apply (rule saved_creds_facts(1))
        apply (rule saved_creds_facts(2))
       apply (rule Connection_delete_removes)
      apply (rule n)
     apply (rule fp)
    apply (rule exI[of _ rep], rule exI[of _ db1], rule conjI)
     apply (rule c)
    apply (rule t)
    done
qed

text \<open>
  C4 (as the code has it). On an instance without id, \<open>delete\<close> returns at its guard,
  before any operation on the store: there is no enumeration of connections, no call of
  \<open>connection.delete()\<close>, no deletion of the row and no commit, and the database is
  returned as it was given. What is returned is \<open>None\<close>, not a report.
\<close>

theorem delete_unsaved:
  assumes "creds_id c = None"
  shows "Creds_delete_traced cd gam H c db = ((Inr None, db), [])
       \<and> Creds_delete cd gam H c db = (Inr None, db)"
  using assms by (simp add: Creds_delete_def Creds_delete_traced_def)

theorem delete_unsaved_witness:
  "creds_id unsaved_creds = None
   \<and> Creds_delete_traced failing_delete sample_methods sample_digest unsaved_creds sample_db
       = ((Inr None, sample_db), [])
   \<and> Creds_delete failing_delete sample_methods sample_digest unsaved_creds sample_db
       = (Inr None, sample_db)"
proof -
  have h: "creds_id unsaved_creds = None"
    by (simp add: unsaved_creds_def)
  from delete_unsaved[OF h] h show ?thesis by blast
qed

text \<open>
  For comparison, the operations of a deletion that passes the guard: the enumeration
  comes first, the row is deleted after the connections, the commit is last.
\<close>

lemma delete_saved_ops_example:
  "snd (Creds_delete_traced Connection_delete sample_methods sample_digest saved_creds sample_db)
     = [FindConnections,
        ConnectionDelete \<lparr>conn_name = ''c1'', conn_creds = 5\<rparr>,
        ConnectionDelete \<lparr>conn_name = ''c2'', conn_creds = 5\<rparr>,
        ObjDelete \<lparr>obj_identifier = ''user''\<rparr>, DeleteRow 5, Commit]"
  by (simp add: Creds_delete_traced_def Connection_find_all_def Connection_delete_def Let_def
      saved_creds_def sample_db_def sample_methods_def get_id_def)

text \<open>
  The specification asks for an empty report here (C4). The unsaved instance of the
  examples has no id, and what \<open>delete\<close> returns for it is not the empty report.
\<close>

theorem delete_unsaved_counterexample:
  "creds_id unsaved_creds = None
   \<and> fst (Creds_delete Connection_delete sample_methods sample_digest unsaved_creds sample_db)
       \<noteq> Inr (Some Map.empty)"
  by (simp add: Creds_delete_unfold unsaved_creds_def)

text \<open>
  C9. On a saved instance: when \<open>connection.delete()\<close> raises for a connection of the
  enumeration, after the connections before it were deleted, \<open>delete\<close> ends with that
  error and with the database exactly as the failing call left it, so neither
  \<open>obj.delete()\<close> nor the deletion of the row nor the commit has run, and the connections
  after it were not visited. When no call raises, the side state and the row are removed,
  and the commit made, on the database that the whole loop left.
\<close>

theorem delete_aborts_on_failure:
  assumes "creds_id c = Some i"
  shows "(Connection_find_all c db = pre @ x # post
            \<and> cascade cd pre Map.empty db = (Inr rep, db1) \<and> cd x db1 = (Inl e, db2)
          \<longrightarrow> Creds_delete cd gam H c db = (Inl e, db2))
       \<and> (consistent gam c
            \<and> cascade cd (Connection_find_all c db) Map.empty db = (Inr rep', db1')
          \<longrightarrow> snd (Creds_delete cd gam H c db)
                = commit (db1'\<lparr>side_state := filter (\<lambda>y. y \<noteq> obj c) (side_state db1'),
                               creds := filter (\<lambda>r. row_id r \<noteq> i) (creds db1')\<rparr>))"
proof (intro conjI impI)
  assume a: "Connection_find_all c db = pre @ x # post
            \<and> cascade cd pre Map.empty db = (Inr rep, db1) \<and> cd x db1 = (Inl e, db2)"
  then have "cascade cd (Connection_find_all c db) Map.empty db = (Inl e, db2)"
    using cascade_fails_at[of cd pre Map.empty db rep db1 x e db2 post] by simp
  then show "Creds_delete cd gam H c db = (Inl e, db2)"
    by (rule delete_failed[OF assms])
next
  assume "consistent gam c
            \<and> cascade cd (Connection_find_all c db) Map.empty db = (Inr rep', db1')"
  then show "snd (Creds_delete cd gam H c db)
                = commit (db1'\<lparr>side_state := filter (\<lambda>y. y \<noteq> obj c) (side_state db1'),
                               creds := filter (\<lambda>r. row_id r \<noteq> i) (creds db1')\<rparr>)"
    using delete_saved[OF assms, of gam cd db rep' db1' H] by simp
qed

text \<open>
  In the example \<open>c1\<close> is deleted (and committed by its own \<open>delete\<close>), \<open>c2\<close> raises: row 5
  and the side state are still there, and \<open>c2\<close> with them.
\<close>

theorem delete_aborts_on_failure_witness:
  "creds_id saved_creds = Some 5
   \<and> Connection_find_all saved_creds sample_db
       = [\<lparr>conn_name = ''c1'', conn_creds = 5\<rparr>] @ \<lparr>conn_name = ''c2'', conn_creds = 5\<rparr> # []
   \<and> cascade failing_delete [\<lparr>conn_name = ''c1'', conn_creds = 5\<rparr>] Map.empty sample_db
       = (Inr [''Connections'' \<mapsto> [''c1'']],
          commit (sample_db\<lparr>connections :=
            [\<lparr>conn_name = ''c0'', conn_creds = 6\<rparr>, \<lparr>conn_name = ''c2'', conn_creds = 5\<rparr>]\<rparr>))
   \<and> Creds_delete failing_delete sample_methods sample_digest saved_creds sample_db
       = (Inl (CollaboratorError ''c2''),
          commit (sample_db\<lparr>connections :=
            [\<lparr>conn_name = ''c0'', conn_creds = 6\<rparr>, \<lparr>conn_name = ''c2'', conn_creds = 5\<rparr>]\<rparr>))
   \<and> consistent sample_methods saved_creds
   \<and> (\<exists>rep db1.
         cascade Connection_delete (Connection_find_all saved_creds sample_db) Map.empty sample_db
           = (Inr rep, db1)
       \<and> snd (Creds_delete Connection_delete sample_methods sample_digest saved_creds sample_db)
           = commit (db1\<lparr>side_state := filter (\<lambda>y. y \<noteq> obj saved_creds) (side_state db1),
                          creds := filter (\<lambda>r. row_id r \<noteq> 5) (creds db1)\<rparr>))"
proof -
  let ?c1 = "\<lparr>conn_name = ''c1'', conn_creds = 5\<rparr>"
  let ?c2 = "\<lparr>conn_name = ''c2'', conn_creds = 5\<rparr>"
  let ?db1 = "commit (sample_db\<lparr>connections :=
            [\<lparr>conn_name = ''c0'', conn_creds = 6\<rparr>, \<lparr>conn_name = ''c2'', conn_creds = 5\<rparr>]\<rparr>)"
  have f: "Connection_find_all saved_creds sample_db = [?c1] @ ?c2 # []"
    by (simp add: saved_creds_facts)
  have p: "cascade failing_delete [?c1] Map.empty sample_db
             = (Inr [''Connections'' \<mapsto> [''c1'']], ?db1)"
    by (simp add: failing_delete_def Connection_delete_def sample_db_def)
  have x: "failing_delete ?c2 ?db1 = (Inl (CollaboratorError ''c2''), ?db1)"
    by (simp add: failing_delete_def)
  obtain rep db1 where c: "cascade Connection_delete (Connection_find_all saved_creds sample_db)
                Map.empty sample_db = (Inr rep, db1)"
    using sample_cascade by blast
  from delete_aborts_on_failure[OF saved_creds_facts(1), where db = sample_db
      and pre = "[?c1]" and x = ?c2 and post = "[]" and cd = failing_delete
      and rep = "[''Connections'' \<mapsto> [''c1'']]" and ?db1.0 = ?db1
      and e = "CollaboratorError ''c2''" and ?db2.0 = ?db1
      and gam = sample_methods and H = sample_digest] f p x
  have A: "Creds_delete failing_delete sample_methods sample_digest saved_creds sample_db
       = (Inl (CollaboratorError ''c2''), ?db1)"
    by blast
  from delete_aborts_on_failure[OF saved_creds_facts(1), where db = sample_db
      and cd = Connection_delete and rep' = rep and db1' = db1
      and gam = sample_methods and H = sample_digest] saved_creds_facts(2) c
  have B: "snd (Creds_delete Connection_delete sample_methods sample_digest saved_creds sample_db)
           = commit (db1\<lparr>side_state := filter (\<lambda>y. y \<noteq> obj saved_creds) (side_state db1),
                          creds := filter (\<lambda>r. row_id r \<noteq> 5) (creds db1)\<rparr>)"
    by blast
  show ?thesis
    apply (intro conjI)
        apply (rule saved_creds_facts(1))
       apply (rule f)
      apply (rule p)
     apply (rule A)
     apply (rule saved_creds_facts(2))
    apply (rule exI[of _ rep], rule exI[of _ db1], rule conjI)
     apply (rule c)
    apply (rule B)
    done
qed

text \<open>
  C10. \<open>delete\<close> assigns no attribute, so after a deletion that returned a report the
  instance still carries its id. A second \<open>delete\<close> on it is not the guard's early return:
  it finds no connection and no row of that id, changes nothing in the database but the
  commit it makes, and returns the report that lists the fingerprint under \<open>Creds\<close> and
  nothing else.
\<close>

theorem delete_twice:
  assumes "creds_id c = Some i" and "consistent gam c" and "removes_connection cd"
    and "Creds_delete cd gam H c db = (Inr r1, db1)"
  shows "Connection_find_all c db1 = []
       \<and> (\<forall>r\<in>set (creds db1). row_id r \<noteq> i)
       \<and> Creds_delete cd gam H c db1 =
           (Inr (Some [''Creds'' \<mapsto> [H (credsType c @ obj_identifier (obj c))]]), commit db1)"
proof -
  obtain res dbc where cas: "cascade cd (Connection_find_all c db) Map.empty db = (res, dbc)"
    by (cases "cascade cd (Connection_find_all c db) Map.empty db")
  obtain rep where res: "res = Inr rep"
    using assms(4) delete_failed[OF assms(1), of cd db _ dbc gam H] cas by (cases res) auto
  have db1: "db1 = commit (dbc\<lparr>side_state := filter (\<lambda>x. x \<noteq> obj c) (side_state dbc),
                           creds := filter (\<lambda>r. row_id r \<noteq> i) (creds dbc)\<rparr>)"
    using delete_saved[OF assms(1,2) cas[unfolded res], of H] assms(4) by simp
  from delete_leaves[OF assms(1,3) cas[unfolded res] db1]
  have gone: "Connection_find_all c db1 = []"
    and side: "obj c \<notin> set (side_state db1)"
    and rows: "\<forall>r\<in>set (creds db1). row_id r \<noteq> i"
    by simp_all
  have c0: "cascade cd (Connection_find_all c db1) Map.empty db1 = (Inr Map.empty, db1)"
    using gone by simp
  have f1: "filter (\<lambda>y. y \<noteq> obj c) (side_state db1) = side_state db1"
    using side by (auto simp: filter_id_conv)
  have f2: "filter (\<lambda>r. row_id r \<noteq> i) (creds db1) = creds db1"
    using rows by (simp add: filter_id_conv)
  show ?thesis
    using delete_saved[OF assms(1,2) c0, of H] gone rows by (simp add: f1 f2)
qed

lemma sample_delete:
  "\<exists>r1 db1. Creds_delete Connection_delete sample_methods sample_digest saved_creds sample_db
      = (Inr r1, db1)"
proof -
  obtain rep db1 where c: "cascade Connection_delete (Connection_find_all saved_creds sample_db)
                Map.empty sample_db = (Inr rep, db1)"
    using sample_cascade by blast
  show ?thesis
    using delete_saved[OF saved_creds_facts(1,2) c, of sample_digest] by simp
qed

theorem delete_twice_witness:
  "creds_id saved_creds = Some 5 \<and> consistent sample_methods saved_creds
   \<and> removes_connection Connection_delete
   \<and> (\<exists>r1 db1.
        Creds_delete Connection_delete sample_methods sample_digest saved_creds sample_db
          = (Inr r1, db1)
      \<and> Connection_find_all saved_creds db1 = []
      \<and> (\<forall>r\<in>set (creds db1). row_id r \<noteq> 5)
      \<and> Creds_delete Connection_delete sample_methods sample_digest saved_creds db1 =
           (Inr (Some [''Creds'' \<mapsto>
               [sample_digest (credsType saved_creds @ obj_identifier (obj saved_creds))]]),
            commit db1))"
proof -
  obtain r1 db1 where d:
    "Creds_delete Connection_delete sample_methods sample_digest saved_creds sample_db
      = (Inr r1, db1)"
    using sample_delete by blast
  note t = delete_twice[OF saved_creds_facts(1,2) Connection_delete_removes d]
  show ?thesis
    apply (intro conjI)
       apply (rule saved_creds_facts(1))
      apply (rule saved_creds_facts(2))
     apply (rule Connection_delete_removes)
    apply (rule exI[of _ r1], rule exI[of _ db1], rule conjI)
     apply (rule d)
    apply (rule t)
    done
qed

subsection \<open>Listing\<close>

lemma find_all_scope:
  "Creds_find_all gam H (Some b) None w =
     build_all gam H (filter (\<lambda>r. row_scope r = (if b then 1 else 0)) (creds (ws_db w))) w"
  by (simp add: Creds_find_all_def)

text \<open>
  C7. With a discovery endpoint given, with or without a scope, \<open>find_all\<close> raises
  \<open>NameError\<close> for the unbound name \<open>endpoint\<close>; it returns no list, and the workspace is
  as it was.
\<close>

theorem find_all_found_raises:
  "Creds_find_all gam H sc (Some e) w = (Inl (NameError ''endpoint''), w)"
  by (simp add: Creds_find_all_def)

end
